theory Spec2Isabelle
  imports Complex_Main
begin

section \<open>Empirical posterior sampling (PosteriorSampling.py)\<close>

text \<open>
  A shallow embedding of the three functions of \<^verbatim>\<open>src/PosteriorSampling.py\<close>:
  \<^verbatim>\<open>sample_ecdf\<close>, \<^verbatim>\<open>compute_default_tol\<close> and \<^verbatim>\<open>EmpiricalPosteriorSampling\<close>.

  \<^item> NumPy's float64 entries are modelled as \<^typ>\<open>real\<close>: comparisons, subtraction, addition
    and the product with \<^verbatim>\<open>1/20\<close> are exact; rounding, NaN and infinities are not modelled.
  \<^item> Every exception the NumPy calls of the source can raise is a value of \<open>py_error\<close>;
    a function that may raise returns \<open>py_error + 'a\<close>, with \<open>Inl\<close> for the exception.
  \<^item> The process-wide generator behind \<^verbatim>\<open>np.random.choice\<close> is an explicit state \<open>'g\<close>
    that every draw takes and returns.
  \<^item> The arguments of \<^verbatim>\<open>EmpiricalPosteriorSampling\<close> are two-dimensional arrays and the
    tolerances a sequence of numbers, as its docstring has them. The one-element arrays
    \<^verbatim>\<open>sample_ind\<close> and \<^verbatim>\<open>sample\<close> of \<^verbatim>\<open>sample_ecdf\<close> are modelled by their entry.
  \<^item> The two \<^verbatim>\<open>print\<close> calls write to standard output only; they influence neither the
    control flow nor any array and are left out.
\<close>

subsection \<open>Arrays and the NumPy operations the source calls\<close>

datatype py_error = IndexError | ValueError

text \<open>
  A two-dimensional array: its shape and its rows. NumPy arrays are rectangular, which
  \<open>wf_ndarray2\<close> states; an array with no rows still has a column count.
\<close>

record ndarray2 =
  shape0 :: nat
  shape1 :: nat
  rows :: "real list list"

definition wf_ndarray2 :: "ndarray2 \<Rightarrow> bool" where
  "wf_ndarray2 m = (length (rows m) = shape0 m \<and> list_all (\<lambda>r. length r = shape1 m) (rows m))"

text \<open>\<^verbatim>\<open>np.zeros(n)\<close> and \<^verbatim>\<open>np.zeros((q, p))\<close>.\<close>

definition zeros1 :: "nat \<Rightarrow> real list" where
  "zeros1 n = replicate n 0"

definition zeros2 :: "nat \<Rightarrow> nat \<Rightarrow> ndarray2" where
  "zeros2 q p = \<lparr>shape0 = q, shape1 = p, rows = replicate q (replicate p 0)\<rparr>"

text \<open>
  \<^verbatim>\<open>m[:,i]\<close> for \<open>i\<close> from \<^verbatim>\<open>range(...)\<close> (never negative): the column as a one-dimensional
  array, IndexError when the array has no such column.
\<close>

definition column :: "ndarray2 \<Rightarrow> nat \<Rightarrow> py_error + real list" where
  "column m i = (if i < shape1 m then Inr (map (\<lambda>r. r ! i) (rows m)) else Inl IndexError)"

text \<open>
  \<^verbatim>\<open>m[:,i] = c\<close>: the column is overwritten in every row. At its only call site \<open>c\<close> has
  one entry per row of \<open>m\<close>.
\<close>

definition set_column :: "ndarray2 \<Rightarrow> nat \<Rightarrow> real list \<Rightarrow> py_error + ndarray2" where
  "set_column m i c =
     (if i < shape1 m then Inr (m\<lparr>rows := map (\<lambda>(r, x). r[i := x]) (zip (rows m) c)\<rparr>)
      else Inl IndexError)"

text \<open>
  \<^verbatim>\<open>np.where(np.logical_and(p_pred_test >= v - W, p_pred_test <= v + W))\<close>: the indices of
  the test-set predictions inside the window, in increasing order.
\<close>

definition where_window :: "real list \<Rightarrow> real \<Rightarrow> real \<Rightarrow> nat list" where
  "where_window p_pred_test v W =
     filter (\<lambda>j. p_pred_test ! j \<ge> v - W \<and> p_pred_test ! j \<le> v + W) [0..<length p_pred_test]"

text \<open>
  \<^verbatim>\<open>a[INDS]\<close> with an array of indices: the selected entries, IndexError when an index is
  out of bounds for \<open>a\<close>.
\<close>

definition take_inds :: "real list \<Rightarrow> nat list \<Rightarrow> py_error + real list" where
  "take_inds a inds =
     (if list_all (\<lambda>j. j < length a) inds then Inr (map (\<lambda>j. a ! j) inds) else Inl IndexError)"

text \<open>
  \<^verbatim>\<open>np.random.choice(n, 1)\<close>: ValueError when \<open>n = 0\<close>, otherwise one index below \<open>n\<close> and
  the generator's next state. The generator is a parameter \<open>gen\<close>, any function from the
  population size and the state to a number and the next state; the number is reduced
  modulo \<open>n\<close>, which builds NumPy's guarantee \<open>index < n\<close> into the model. Every generator
  that keeps this guarantee by itself is unchanged by the reduction.
\<close>

type_synonym 'g generator = "nat \<Rightarrow> 'g \<Rightarrow> nat \<times> 'g"

definition random_choice :: "'g generator \<Rightarrow> nat \<Rightarrow> 'g \<Rightarrow> py_error + nat \<times> 'g" where
  "random_choice gen n g =
     (if n = 0 then Inl ValueError else Inr (fst (gen n g) mod n, snd (gen n g)))"

text \<open>\<^verbatim>\<open>np.min(m, axis=0)\<close> and \<^verbatim>\<open>np.max(m, axis=0)\<close>: ValueError on an array with no rows.\<close>

definition amin0 :: "ndarray2 \<Rightarrow> py_error + real list" where
  "amin0 m =
     (if shape0 m = 0 then Inl ValueError
      else Inr (map (\<lambda>p. Min (set (map (\<lambda>r. r ! p) (rows m)))) [0..<shape1 m]))"

definition amax0 :: "ndarray2 \<Rightarrow> py_error + real list" where
  "amax0 m =
     (if shape0 m = 0 then Inl ValueError
      else Inr (map (\<lambda>p. Max (set (map (\<lambda>r. r ! p) (rows m)))) [0..<shape1 m]))"

subsection \<open>sample_ecdf\<close>

text \<open>
  The body of the loop of \<^verbatim>\<open>sample_ecdf\<close> (lines 22 to 31) for one observed prediction
  \<open>v = p_pred_obs[i]\<close>: the sample and the generator's next state. The test
  \<^verbatim>\<open>csamples.shape[0] is 0\<close> compares a Python int with the literal 0 by identity, which
  CPython answers as equality for small integers.
\<close>

definition sample_ecdf_step ::
  "'g generator \<Rightarrow> real \<Rightarrow> real list \<Rightarrow> real list \<Rightarrow> real \<Rightarrow> 'g \<Rightarrow> py_error + real \<times> 'g" where
  "sample_ecdf_step gen v p_pred_test p_true_test W g =
     (case take_inds p_true_test (where_window p_pred_test v W) of
        Inl e \<Rightarrow> Inl e
      | Inr csamples \<Rightarrow>
          (if length csamples = 0 then
             (case random_choice gen (length p_true_test) g of
                Inl e \<Rightarrow> Inl e
              | Inr (sample_ind, g') \<Rightarrow> Inr (p_true_test ! sample_ind, g'))
           else
             (case random_choice gen (length csamples) g of
                Inl e \<Rightarrow> Inl e
              | Inr (sample_ind, g') \<Rightarrow> Inr (csamples ! sample_ind, g'))))"

text \<open>The loop over \<^verbatim>\<open>range(p_pred_obs.shape[0])\<close>, writing \<^verbatim>\<open>postsamples[i]\<close>.\<close>

fun sample_ecdf_loop ::
  "'g generator \<Rightarrow> real list \<Rightarrow> real list \<Rightarrow> real list \<Rightarrow> real \<Rightarrow> nat list \<Rightarrow> real list \<Rightarrow> 'g
     \<Rightarrow> py_error + real list \<times> 'g" where
  "sample_ecdf_loop gen p_pred_obs p_pred_test p_true_test W [] postsamples g =
     Inr (postsamples, g)"
| "sample_ecdf_loop gen p_pred_obs p_pred_test p_true_test W (i # is) postsamples g =
     (case sample_ecdf_step gen (p_pred_obs ! i) p_pred_test p_true_test W g of
        Inl e \<Rightarrow> Inl e
      | Inr (sample, g') \<Rightarrow>
          sample_ecdf_loop gen p_pred_obs p_pred_test p_true_test W is
            (postsamples[i := sample]) g')"

definition sample_ecdf ::
  "'g generator \<Rightarrow> real list \<Rightarrow> real list \<Rightarrow> real list \<Rightarrow> real \<Rightarrow> 'g
     \<Rightarrow> py_error + real list \<times> 'g" where
  "sample_ecdf gen p_pred_obs p_pred_test p_true_test W g =
     sample_ecdf_loop gen p_pred_obs p_pred_test p_true_test W [0..<length p_pred_obs]
       (zeros1 (length p_pred_obs)) g"

subsection \<open>compute_default_tol\<close>

definition compute_default_tol :: "ndarray2 \<Rightarrow> py_error + real list" where
  "compute_default_tol p_pred_test =
     (let rangefraction = 1 / 20 in
      case amin0 p_pred_test of
        Inl e \<Rightarrow> Inl e
      | Inr pmin \<Rightarrow>
          (case amax0 p_pred_test of
             Inl e \<Rightarrow> Inl e
           | Inr pmax \<Rightarrow> Inr (map (\<lambda>(hi, lo). rangefraction * (hi - lo)) (zip pmax pmin))))"

subsection \<open>EmpiricalPosteriorSampling\<close>

text \<open>
  The loop over \<^verbatim>\<open>range(len(Ws))\<close>. The arguments of the call to \<^verbatim>\<open>sample_ecdf\<close> are
  evaluated from left to right; each of the three column reads can raise.
\<close>

fun posterior_loop ::
  "'g generator \<Rightarrow> ndarray2 \<Rightarrow> ndarray2 \<Rightarrow> ndarray2 \<Rightarrow> real list \<Rightarrow> nat list \<Rightarrow> ndarray2 \<Rightarrow> 'g
     \<Rightarrow> py_error + ndarray2 \<times> 'g" where
  "posterior_loop gen p_pred_obs p_pred_test p_true_test Ws [] postsamples g =
     Inr (postsamples, g)"
| "posterior_loop gen p_pred_obs p_pred_test p_true_test Ws (i # is) postsamples g =
     (case column p_pred_obs i of
        Inl e \<Rightarrow> Inl e
      | Inr obs_i \<Rightarrow>
          (case column p_pred_test i of
             Inl e \<Rightarrow> Inl e
           | Inr pred_i \<Rightarrow>
               (case column p_true_test i of
                  Inl e \<Rightarrow> Inl e
                | Inr true_i \<Rightarrow>
                    (case sample_ecdf gen obs_i pred_i true_i (Ws ! i) g of
                       Inl e \<Rightarrow> Inl e
                     | Inr (samples, g') \<Rightarrow>
                         (case set_column postsamples i samples of
                            Inl e \<Rightarrow> Inl e
                          | Inr postsamples' \<Rightarrow>
                              posterior_loop gen p_pred_obs p_pred_test p_true_test Ws is
                                postsamples' g')))))"

text \<open>\<open>Ws = None\<close> is the default argument \<^verbatim>\<open>Ws=None\<close>.\<close>

definition EmpiricalPosteriorSampling ::
  "'g generator \<Rightarrow> ndarray2 \<Rightarrow> ndarray2 \<Rightarrow> ndarray2 \<Rightarrow> real list option \<Rightarrow> 'g
     \<Rightarrow> py_error + ndarray2 \<times> 'g" where
  "EmpiricalPosteriorSampling gen p_pred_obs p_pred_test p_true_test Ws g =
     (case (case Ws of None \<Rightarrow> compute_default_tol p_pred_test | Some ws \<Rightarrow> Inr ws) of
        Inl e \<Rightarrow> Inl e
      | Inr ws \<Rightarrow>
          posterior_loop gen p_pred_obs p_pred_test p_true_test ws [0..<length ws]
            (zeros2 (shape0 p_pred_obs) (shape1 p_pred_obs)) g)"

text \<open>
  A concrete generator for the examples: the state is a counter, each draw returns it
  and increments it, so the draws from state 0 are 0, 1, 2, ... before the reduction.
\<close>

definition counter_gen :: "nat generator" where
  "counter_gen n g = (g, Suc g)"

subsection \<open>Vocabulary for the per-parameter properties\<close>

text \<open>
  \<^verbatim>\<open>m[:, [p]]\<close>: the one-column array holding column \<open>p\<close> of \<open>m\<close>, the input of a
  single-parameter run; and \<^verbatim>\<open>m[:, perm]\<close>: the array whose column \<open>j\<close> is column
  \<open>perm ! j\<close> of \<open>m\<close>.
\<close>

definition select_column :: "ndarray2 \<Rightarrow> nat \<Rightarrow> ndarray2" where
  "select_column m p = \<lparr>shape0 = shape0 m, shape1 = 1, rows = map (\<lambda>r. [r ! p]) (rows m)\<rparr>"

definition permute_columns :: "nat list \<Rightarrow> ndarray2 \<Rightarrow> ndarray2" where
  "permute_columns perm m =
     \<lparr>shape0 = shape0 m, shape1 = length perm, rows = map (\<lambda>r. map (\<lambda>j. r ! j) perm) (rows m)\<rparr>"

text \<open>
  A worked example with two parameters, five test-set realizations and two observed
  realizations. The second predicted-test column is constant.
\<close>

definition ex_obs :: ndarray2 where
  "ex_obs = \<lparr>shape0 = 2, shape1 = 2, rows = [[3, 0], [100, 7]]\<rparr>"

definition ex_pred :: ndarray2 where
  "ex_pred = \<lparr>shape0 = 5, shape1 = 2, rows = [[1, 0], [2, 0], [3, 0], [4, 0], [5, 0]]\<rparr>"

definition ex_truth :: ndarray2 where
  "ex_truth = \<lparr>shape0 = 5, shape1 = 2, rows = [[10, 1], [20, 2], [30, 3], [40, 4], [50, 5]]\<rparr>"

text \<open>
  Two generators make the same draws from states related by \<open>R\<close> when, for every
  population size, they yield the same index and states related again. A second concrete
  generator: it differs from \<open>counter_gen\<close> before the reduction modulo the population
  size and agrees with it after.
\<close>

definition same_draws :: "('a \<Rightarrow> 'b \<Rightarrow> bool) \<Rightarrow> 'a generator \<Rightarrow> 'b generator \<Rightarrow> bool" where
  "same_draws R gen1 gen2 =
     (\<forall>n s1 s2. 0 < n \<longrightarrow> R s1 s2 \<longrightarrow>
        fst (gen1 n s1) mod n = fst (gen2 n s2) mod n \<and> R (snd (gen1 n s1)) (snd (gen2 n s2)))"

definition offset_gen :: "nat generator" where
  "offset_gen n g = (g + 3 * n, Suc g)"

section \<open>Helper lemmas: one realization\<close>

lemma where_window_iff:
  "j \<in> set (where_window pred v W) \<longleftrightarrow> j < length pred \<and> v - W \<le> pred ! j \<and> pred ! j \<le> v + W"
  by (auto simp: where_window_def)

lemma window_in_bounds:
  "length pred \<le> length truth \<Longrightarrow> list_all (\<lambda>j. j < length truth) (where_window pred v W)"
  by (auto simp: list_all_iff where_window_iff)

lemma take_inds_Inr:
  "list_all (\<lambda>j. j < length a) inds \<Longrightarrow> take_inds a inds = Inr (map (\<lambda>j. a ! j) inds)"
  by (simp add: take_inds_def)

lemma random_choice_pos:
  assumes "0 < n"
  shows "\<exists>k g'. random_choice gen n g = Inr (k, g') \<and> k < n"
  using assms by (simp add: random_choice_def)

text \<open>The non-fallback path: a candidate exists and every candidate indexes the truth column.\<close>

lemma sample_ecdf_step_candidates:
  assumes "where_window pred v W \<noteq> []"
    and "list_all (\<lambda>j. j < length truth) (where_window pred v W)"
  shows "\<exists>i g'. i \<in> set (where_window pred v W) \<and>
           sample_ecdf_step gen v pred truth W g = Inr (truth ! i, g')"
proof -
  let ?I = "where_window pred v W"
  from assms(1) have "0 < length ?I" by simp
  from random_choice_pos [OF this, of gen g] obtain k g'
    where k: "random_choice gen (length ?I) g = Inr (k, g')" "k < length ?I"
    by blast
  have "sample_ecdf_step gen v pred truth W g = Inr (truth ! (?I ! k), g')"
    using assms k by (simp add: sample_ecdf_step_def take_inds_Inr)
  moreover have "?I ! k \<in> set ?I" using k(2) by simp
  ultimately show ?thesis by blast
qed

text \<open>The fallback path: no candidate, and a truth column to draw from.\<close>

lemma sample_ecdf_step_empty:
  assumes "truth \<noteq> []" and "where_window pred v W = []"
  shows "\<exists>j g'. j < length truth \<and> sample_ecdf_step gen v pred truth W g = Inr (truth ! j, g')"
proof -
  from assms(1) have "0 < length truth" by simp
  from random_choice_pos [OF this, of gen g] obtain k g'
    where k: "random_choice gen (length truth) g = Inr (k, g')" "k < length truth"
    by blast
  have "sample_ecdf_step gen v pred truth W g = Inr (truth ! k, g')"
    using assms(2) k by (simp add: sample_ecdf_step_def take_inds_def)
  then show ?thesis using k(2) by blast
qed

lemma sample_ecdf_step_empty_truth:
  "where_window pred v W = [] \<Longrightarrow> sample_ecdf_step gen v pred [] W g = Inl ValueError"
  by (simp add: sample_ecdf_step_def take_inds_def random_choice_def)

lemma sample_ecdf_step_out_of_bounds:
  assumes "\<not> list_all (\<lambda>j. j < length truth) (where_window pred v W)"
  shows "sample_ecdf_step gen v pred truth W g = Inl IndexError"
  using assms by (simp add: sample_ecdf_step_def take_inds_def)

lemma sample_ecdf_step_returns:
  assumes "truth \<noteq> []" and "list_all (\<lambda>j. j < length truth) (where_window pred v W)"
  shows "\<exists>j g'. j < length truth \<and> sample_ecdf_step gen v pred truth W g = Inr (truth ! j, g')"
proof (cases "where_window pred v W = []")
  case True
  then show ?thesis using assms(1) by (rule sample_ecdf_step_empty [rotated])
next
  case False
  from sample_ecdf_step_candidates [OF False assms(2), of gen g] obtain i g'
    where i: "i \<in> set (where_window pred v W)"
      "sample_ecdf_step gen v pred truth W g = Inr (truth ! i, g')"
    by blast
  from i(1) assms(2) have "i < length truth" by (simp add: list_all_iff)
  then show ?thesis using i(2) by blast
qed

text \<open>Whatever the step returns on its non-fallback path is the truth value of a candidate.\<close>

lemma sample_ecdf_step_candidate_value:
  assumes "where_window pred v W \<noteq> []"
    and "sample_ecdf_step gen v pred truth W g = Inr (s, g')"
  shows "\<exists>i. i \<in> set (where_window pred v W) \<and> i < length truth \<and> s = truth ! i"
proof -
  have inb: "list_all (\<lambda>j. j < length truth) (where_window pred v W)"
  proof (rule ccontr)
    assume "\<not> ?thesis"
    from sample_ecdf_step_out_of_bounds [OF this, of gen g] assms(2) show False by simp
  qed
  from sample_ecdf_step_candidates [OF assms(1) inb, of gen g] obtain i g''
    where i: "i \<in> set (where_window pred v W)"
      "sample_ecdf_step gen v pred truth W g = Inr (truth ! i, g'')"
    by blast
  from i(2) assms(2) have "s = truth ! i" by simp
  moreover from i(1) inb have "i < length truth" by (simp add: list_all_iff)
  ultimately show ?thesis using i(1) by blast
qed

lemma sample_ecdf_step_value:
  assumes "sample_ecdf_step gen v pred truth W g = Inr (s, g')"
  shows "s \<in> set truth"
proof (cases "where_window pred v W = []")
  case True
  have "truth \<noteq> []"
  proof
    assume "truth = []"
    with sample_ecdf_step_empty_truth [OF True, of gen g] assms show False by simp
  qed
  from sample_ecdf_step_empty [OF this True, of gen g] assms show ?thesis by auto
next
  case False
  from sample_ecdf_step_candidate_value [OF False assms] show ?thesis by auto
qed

section \<open>Helper lemmas: the loop of sample_ecdf\<close>

lemma sample_ecdf_loop_returns:
  assumes "truth \<noteq> []"
    and "list_all (\<lambda>i. list_all (\<lambda>j. j < length truth) (where_window pred (obs ! i) W)) is"
  shows "\<exists>post' g'. sample_ecdf_loop gen obs pred truth W is post g = Inr (post', g') \<and>
           length post' = length post"
  using assms(2)
proof (induction "is" arbitrary: post g)
  case Nil
  then show ?case by simp
next
  case (Cons i "is")
  from Cons.prems have inb: "list_all (\<lambda>j. j < length truth) (where_window pred (obs ! i) W)"
    and rest: "list_all (\<lambda>i. list_all (\<lambda>j. j < length truth) (where_window pred (obs ! i) W)) is"
    by simp_all
  from sample_ecdf_step_returns [OF assms(1) inb, of gen g] obtain j g1
    where st: "sample_ecdf_step gen (obs ! i) pred truth W g = Inr (truth ! j, g1)"
    by blast
  from Cons.IH [OF rest, of "post[i := truth ! j]" g1] st
  show ?case by simp
qed

lemma sample_ecdf_loop_length:
  "sample_ecdf_loop gen obs pred truth W is post g = Inr (post', g') \<Longrightarrow> length post' = length post"
proof (induction "is" arbitrary: post g)
  case Nil
  then show ?case by simp
next
  case (Cons i "is")
  then show ?case by (auto split: sum.splits)
qed

text \<open>An entry the loop has written is a truth value; an entry it has not reached is unchanged.\<close>

lemma sample_ecdf_loop_entries:
  assumes "sample_ecdf_loop gen obs pred truth W is post g = Inr (post', g')"
    and "k < length post"
  shows "(k \<in> set is \<longrightarrow> post' ! k \<in> set truth) \<and> (k \<notin> set is \<longrightarrow> post' ! k = post ! k)"
  using assms
proof (induction "is" arbitrary: post g)
  case Nil
  then show ?case by simp
next
  case (Cons i "is")
  from Cons.prems(1) obtain s g1
    where st: "sample_ecdf_step gen (obs ! i) pred truth W g = Inr (s, g1)"
      and lp: "sample_ecdf_loop gen obs pred truth W is (post[i := s]) g1 = Inr (post', g')"
    by (auto split: sum.splits)
  have smem: "s \<in> set truth" by (rule sample_ecdf_step_value [OF st])
  from Cons.prems(2) have k: "k < length (post[i := s])" by simp
  from Cons.IH [OF lp k] smem Cons.prems(2) show ?case
    by (cases "k = i") auto
qed

lemma sample_ecdf_returns:
  assumes "truth \<noteq> []"
    and "list_all (\<lambda>u. list_all (\<lambda>j. j < length truth) (where_window pred u W)) obs"
  shows "\<exists>post g'. sample_ecdf gen obs pred truth W g = Inr (post, g') \<and>
           length post = length obs"
proof -
  from assms(2)
  have "list_all (\<lambda>i. list_all (\<lambda>j. j < length truth) (where_window pred (obs ! i) W))
          [0..<length obs]"
    by (auto simp: list_all_iff)
  from sample_ecdf_loop_returns [OF assms(1) this, of gen "zeros1 (length obs)" g]
  show ?thesis by (simp add: sample_ecdf_def zeros1_def)
qed

lemma sample_ecdf_length:
  "sample_ecdf gen obs pred truth W g = Inr (post, g') \<Longrightarrow> length post = length obs"
  unfolding sample_ecdf_def by (drule sample_ecdf_loop_length) (simp add: zeros1_def)

lemma sample_ecdf_entries:
  assumes "sample_ecdf gen obs pred truth W g = Inr (post, g')"
  shows "set post \<subseteq> set truth"
proof
  fix x
  assume "x \<in> set post"
  then obtain k where k: "k < length post" "x = post ! k"
    by (auto simp: in_set_conv_nth)
  from sample_ecdf_length [OF assms] k(1) have kl: "k < length (zeros1 (length obs))"
    by (simp add: zeros1_def)
  from assms have "sample_ecdf_loop gen obs pred truth W [0..<length obs]
       (zeros1 (length obs)) g = Inr (post, g')"
    by (simp add: sample_ecdf_def)
  from sample_ecdf_loop_entries [OF this kl] kl k(2) show "x \<in> set truth"
    by (simp add: zeros1_def)
qed

section \<open>The windowed resampling step\<close>



text \<open>
  C2. With a truth column that is not empty, a step whose candidate index set is empty
  still returns a value, and the value is \<open>truth ! j\<close> for an index \<open>j\<close> of the whole truth
  column. The computation as a whole does not abort either: \<^verbatim>\<open>sample_ecdf\<close> returns one
  value of the truth column per observed realization whenever no candidate index lies
  outside the truth column, which is so for every realization with no candidate at all
  and for columns of equal length.
\<close>

theorem sample_ecdf_step_fallback:
  assumes "truth \<noteq> []"
  shows "(where_window pred v W = [] \<longrightarrow>
            (\<exists>j g'. j < length truth \<and>
               sample_ecdf_step gen v pred truth W g = Inr (truth ! j, g'))) \<and>
         (list_all (\<lambda>u. list_all (\<lambda>j. j < length truth) (where_window pred u W)) obs \<longrightarrow>
            (\<exists>post g'. sample_ecdf gen obs pred truth W g = Inr (post, g') \<and>
               length post = length obs \<and> set post \<subseteq> set truth))"
proof (intro conjI impI)
  assume "where_window pred v W = []"
  from sample_ecdf_step_empty [OF assms this, of gen g]
  show "\<exists>j g'. j < length truth \<and> sample_ecdf_step gen v pred truth W g = Inr (truth ! j, g')" .
next
  assume "list_all (\<lambda>u. list_all (\<lambda>j. j < length truth) (where_window pred u W)) obs"
  from sample_ecdf_returns [OF assms this, of gen g] obtain post g'
    where r: "sample_ecdf gen obs pred truth W g = Inr (post, g')" "length post = length obs"
    by blast
  from sample_ecdf_entries [OF r(1)] r
  show "\<exists>post g'. sample_ecdf gen obs pred truth W g = Inr (post, g') \<and>
               length post = length obs \<and> set post \<subseteq> set truth"
    by blast
qed

theorem sample_ecdf_step_fallback_witness:
  "[10, 20, 30, 40, 50 :: real] \<noteq> [] \<and> where_window [1, 2, 3, 4, 5] 100 (1 / 2) = [] \<and>
   (\<exists>j g'. j < length [10, 20, 30, 40, 50 :: real] \<and>
      sample_ecdf_step counter_gen 100 [1, 2, 3, 4, 5] [10, 20, 30, 40, 50] (1 / 2) (7::nat) =
        Inr ([10, 20, 30, 40, 50] ! j, g')) \<and>
   (\<exists>post g'. sample_ecdf counter_gen [100, 3] [1, 2, 3, 4, 5] [10, 20, 30, 40, 50] (1 / 2) (7::nat) =
        Inr (post, g') \<and> length post = length [100, 3 :: real] \<and>
        set post \<subseteq> set [10, 20, 30, 40, 50])"
proof -
  have ne: "[10, 20, 30, 40, 50 :: real] \<noteq> []" by simp
  have e: "where_window [1, 2, 3, 4, 5] 100 (1 / 2) = []" by code_simp
  have b: "list_all (\<lambda>u. list_all (\<lambda>j. j < length [10, 20, 30, 40, 50 :: real])
             (where_window [1, 2, 3, 4, 5] u (1 / 2))) [100, 3]"
    by code_simp
  note t = sample_ecdf_step_fallback [OF ne, of "[1, 2, 3, 4, 5]" _ "1 / 2" counter_gen "7::nat"]
  from t [of 100 "[]"] e
  have "\<exists>j g'. j < length [10, 20, 30, 40, 50 :: real] \<and>
      sample_ecdf_step counter_gen 100 [1, 2, 3, 4, 5] [10, 20, 30, 40, 50] (1 / 2) (7::nat) =
        Inr ([10, 20, 30, 40, 50] ! j, g')"
    by blast
  moreover from t [of 100 "[100, 3]"] b
  have "\<exists>post g'. sample_ecdf counter_gen [100, 3] [1, 2, 3, 4, 5] [10, 20, 30, 40, 50] (1 / 2) (7::nat) =
        Inr (post, g') \<and> length post = length [100, 3 :: real] \<and>
        set post \<subseteq> set [10, 20, 30, 40, 50]"
    by blast
  ultimately show ?thesis using ne e by blast
qed

text \<open>
  C6. For the predicted-test column 1, 2, 3, 4, 5, the true-test column 10, 20, 30, 40, 50,
  the observed prediction 3 and the tolerance 0.5, the candidate index set is the
  singleton of index 2 (the position of the value 3), and the step returns 30 for every
  generator and every generator state: the draw is over one candidate.
\<close>

theorem example_single_candidate:
  "where_window [1, 2, 3, 4, 5] 3 (1 / 2) = [2] \<and>
   sample_ecdf_step gen 3 [1, 2, 3, 4, 5] [10, 20, 30, 40, 50] (1 / 2) g = Inr (30, snd (gen 1 g))"
proof -
  have w: "where_window [1, 2, 3, 4, 5] 3 (1 / 2) = [2]" by code_simp
  then show ?thesis
    by (simp add: sample_ecdf_step_def take_inds_def random_choice_def)
qed

text \<open>
  C7. For a fixed observed prediction \<open>v\<close> and prediction column, widening the tolerance
  from \<open>w\<close> to \<open>w'\<close> with \<open>0 \<le> w \<le> w'\<close> never removes a candidate index: the candidate
  set for \<open>w\<close> is a subset of the candidate set for \<open>w'\<close>.
\<close>

theorem where_window_mono:
  assumes "0 \<le> w" and "w \<le> w'"
  shows "set (where_window pred v w) \<subseteq> set (where_window pred v w')"
proof
  fix j
  assume "j \<in> set (where_window pred v w)"
  then have j: "j < length pred" "v - w \<le> pred ! j" "pred ! j \<le> v + w"
    by (simp_all add: where_window_iff)
  from j(2) assms(2) have "v - w' \<le> pred ! j" by linarith
  moreover from j(3) assms(2) have "pred ! j \<le> v + w'" by linarith
  ultimately show "j \<in> set (where_window pred v w')"
    using j(1) by (simp add: where_window_iff)
qed

theorem where_window_mono_witness:
  "(0::real) \<le> 1 / 2 \<and> (1 / 2 :: real) \<le> 1 \<and>
   set (where_window [1, 2, 3, 4, 5] 3 (1 / 2)) \<subseteq> set (where_window [1, 2, 3, 4, 5] 3 1) \<and>
   where_window [1, 2, 3, 4, 5] 3 (1 / 2) = [2] \<and> where_window [1, 2, 3, 4, 5] 3 1 = [1, 2, 3]"
proof -
  have a: "(0::real) \<le> 1 / 2" and b: "(1 / 2 :: real) \<le> 1" by simp_all
  have c: "where_window [1, 2, 3, 4, 5] 3 (1 / 2) = [2]" by code_simp
  have d: "where_window [1, 2, 3, 4, 5] 3 1 = [1, 2, 3]" by code_simp
  from where_window_mono [OF a b, of "[1, 2, 3, 4, 5]" 3] a b c d show ?thesis by blast
qed

section \<open>Helper lemmas: arrays\<close>

lemma upt_split: "m < n \<Longrightarrow> [0..<n] = [0..<m] @ m # [Suc m..<n]"
  using upt_add_eq_append [of 0 m "n - m"] by (simp add: upt_conv_Cons)


lemma column_Inl: "\<not> i < shape1 m \<Longrightarrow> column m i = Inl IndexError"
  by (simp add: column_def)

lemma column_eq_map:
  "column m p = Inr c \<Longrightarrow> c = map (\<lambda>r. r ! p) (rows m)"
  by (simp add: column_def split: if_splits)

lemma column_length:
  "wf_ndarray2 m \<Longrightarrow> column m i = Inr c \<Longrightarrow> length c = shape0 m"
  by (auto simp: column_def wf_ndarray2_def split: if_splits)

lemma wf_zeros2: "wf_ndarray2 (zeros2 q p)"
  by (simp add: wf_ndarray2_def zeros2_def list_all_iff)

lemma zeros2_shape: "shape0 (zeros2 q p) = q" "shape1 (zeros2 q p) = p"
  by (simp_all add: zeros2_def)

lemma column_zeros2: "j < p \<Longrightarrow> column (zeros2 q p) j = Inr (zeros1 q)"
  by (simp add: column_def zeros2_def zeros1_def map_replicate_const)

lemma set_column_shape:
  "set_column m i c = Inr m' \<Longrightarrow> shape0 m' = shape0 m \<and> shape1 m' = shape1 m"
  by (auto simp: set_column_def split: if_splits)

lemma set_column_wf:
  assumes "wf_ndarray2 m" and "length c = shape0 m" and "set_column m i c = Inr m'"
  shows "wf_ndarray2 m'"
proof -
  from assms(3) have m': "m' = m\<lparr>rows := map (\<lambda>(r, x). r[i := x]) (zip (rows m) c)\<rparr>"
    by (simp add: set_column_def split: if_splits)
  have "\<And>r x. (r, x) \<in> set (zip (rows m) c) \<Longrightarrow> length r = shape1 m"
    using assms(1) by (auto simp: wf_ndarray2_def list_all_iff dest: set_zip_leftD)
  then show ?thesis
    using assms(1,2) by (auto simp: m' wf_ndarray2_def list_all_iff)
qed

lemma column_set_column_same:
  assumes "wf_ndarray2 m" and "length c = shape0 m" and "set_column m i c = Inr m'"
  shows "column m' i = Inr c"
proof -
  from assms(3) have i: "i < shape1 m"
    and m': "m' = m\<lparr>rows := map (\<lambda>(r, x). r[i := x]) (zip (rows m) c)\<rparr>"
    by (simp_all add: set_column_def split: if_splits)
  have len: "length (rows m) = length c"
    using assms(1,2) by (simp add: wf_ndarray2_def)
  have "map (\<lambda>r. r ! i) (map (\<lambda>(r, x). r[i := x]) (zip (rows m) c)) = c"
  proof (rule nth_equalityI)
    show "length (map (\<lambda>r. r ! i) (map (\<lambda>(r, x). r[i := x]) (zip (rows m) c))) = length c"
      using len by simp
  next
    fix k
    assume "k < length (map (\<lambda>r. r ! i) (map (\<lambda>(r, x). r[i := x]) (zip (rows m) c)))"
    then have k: "k < length c" "k < length (rows m)" using len by simp_all
    then have "rows m ! k \<in> set (rows m)" by simp
    with assms(1) have "length (rows m ! k) = shape1 m"
      by (simp add: wf_ndarray2_def list_all_iff)
    with i k show "map (\<lambda>r. r ! i) (map (\<lambda>(r, x). r[i := x]) (zip (rows m) c)) ! k = c ! k"
      by simp
  qed
  with i show ?thesis by (simp add: m' column_def)
qed

lemma column_set_column_other:
  assumes "wf_ndarray2 m" and "length c = shape0 m" and "set_column m i c = Inr m'"
    and "j \<noteq> i"
  shows "column m' j = column m j"
proof -
  from assms(3) have m': "m' = m\<lparr>rows := map (\<lambda>(r, x). r[i := x]) (zip (rows m) c)\<rparr>"
    by (simp add: set_column_def split: if_splits)
  have len: "length (rows m) = length c"
    using assms(1,2) by (simp add: wf_ndarray2_def)
  have "map (\<lambda>r. r ! j) (map (\<lambda>(r, x). r[i := x]) (zip (rows m) c)) = map (\<lambda>r. r ! j) (rows m)"
    using len assms(4) by (intro nth_equalityI) simp_all
  then show ?thesis by (simp add: m' column_def)
qed

lemma select_column_column0:
  "column (select_column m p) 0 = Inr (map (\<lambda>r. r ! p) (rows m))"
  by (simp add: column_def select_column_def comp_def)

lemma select_column_eq:
  assumes "column m p = Inr c"
  shows "select_column m p = \<lparr>shape0 = shape0 m, shape1 = 1, rows = map (\<lambda>x. [x]) c\<rparr>"
proof -
  from assms have "c = map (\<lambda>r. r ! p) (rows m)"
    by (simp add: column_def split: if_splits)
  then show ?thesis by (simp add: select_column_def comp_def)
qed

lemma set_column_zeros_single:
  assumes "length c = q"
  shows "set_column (zeros2 q 1) 0 c = Inr \<lparr>shape0 = q, shape1 = 1, rows = map (\<lambda>x. [x]) c\<rparr>"
proof -
  have "map (\<lambda>(r, x). r[0 := x]) (zip (replicate q [0]) c) = map (\<lambda>x. [x]) c"
    using assms by (intro nth_equalityI) simp_all
  then show ?thesis by (simp add: set_column_def zeros2_def)
qed

lemma ex_wf: "wf_ndarray2 ex_obs" "wf_ndarray2 ex_pred" "wf_ndarray2 ex_truth"
  by (simp_all add: wf_ndarray2_def ex_obs_def ex_pred_def ex_truth_def)

lemma ex_shapes:
  "shape0 ex_obs = 2" "shape1 ex_obs = 2" "shape0 ex_pred = 5" "shape1 ex_pred = 2"
  "shape0 ex_truth = 5" "shape1 ex_truth = 2"
  by (simp_all add: ex_obs_def ex_pred_def ex_truth_def)

section \<open>Helper lemmas: the loop of EmpiricalPosteriorSampling\<close>

lemma posterior_loop_Cons_Inr:
  assumes "posterior_loop gen obs pred truth Ws (i # is) post g = Inr (post', g')"
  obtains obs_i pred_i true_i c g1 post1 where
    "column obs i = Inr obs_i" "column pred i = Inr pred_i" "column truth i = Inr true_i"
    "sample_ecdf gen obs_i pred_i true_i (Ws ! i) g = Inr (c, g1)"
    "set_column post i c = Inr post1"
    "posterior_loop gen obs pred truth Ws is post1 g1 = Inr (post', g')"
  using assms by (auto split: sum.splits)

lemma posterior_loop_append:
  "posterior_loop gen obs pred truth Ws (is @ js) post g =
     (case posterior_loop gen obs pred truth Ws is post g of
        Inl e \<Rightarrow> Inl e
      | Inr (post1, g1) \<Rightarrow> posterior_loop gen obs pred truth Ws js post1 g1)"
  by (induction "is" arbitrary: post g) (auto split: sum.splits)

lemma posterior_loop_cong:
  "list_all (\<lambda>i. Ws ! i = Ws' ! i) is \<Longrightarrow>
   posterior_loop gen obs pred truth Ws is post g = posterior_loop gen obs pred truth Ws' is post g"
  by (induction "is" arbitrary: post g) (auto split: sum.splits)

text \<open>What a run of the loop that returns has done to the output array.\<close>

lemma posterior_loop_result:
  assumes "wf_ndarray2 obs"
    and "posterior_loop gen obs pred truth Ws is post g = Inr (post', g')"
    and "wf_ndarray2 post" and "shape0 post = shape0 obs"
  shows "wf_ndarray2 post' \<and> shape0 post' = shape0 post \<and> shape1 post' = shape1 post \<and>
         (\<forall>j. j \<notin> set is \<longrightarrow> column post' j = column post j) \<and>
         (\<forall>j. j \<in> set is \<longrightarrow>
            (\<exists>c t. column post' j = Inr c \<and> column truth j = Inr t \<and> set c \<subseteq> set t))"
  using assms(2-)
proof (induction "is" arbitrary: post g)
  case Nil
  then show ?case by simp
next
  case (Cons i "is")
  from Cons.prems(1) obtain obs_i pred_i true_i c g1 post1 where
    st: "column obs i = Inr obs_i" "column pred i = Inr pred_i" "column truth i = Inr true_i"
      "sample_ecdf gen obs_i pred_i true_i (Ws ! i) g = Inr (c, g1)"
      "set_column post i c = Inr post1"
      "posterior_loop gen obs pred truth Ws is post1 g1 = Inr (post', g')"
    by (rule posterior_loop_Cons_Inr)
  have lc: "length c = shape0 post"
    using sample_ecdf_length [OF st(4)] column_length [OF assms(1) st(1)] Cons.prems(3)
    by simp
  have wf1: "wf_ndarray2 post1" by (rule set_column_wf [OF Cons.prems(2) lc st(5)])
  have sh1: "shape0 post1 = shape0 post" "shape1 post1 = shape1 post"
    using set_column_shape [OF st(5)] by simp_all
  from sh1 Cons.prems(3) have "shape0 post1 = shape0 obs" by simp
  note ih = Cons.IH [OF st(6) wf1 this]
  have same: "column post1 i = Inr c"
    by (rule column_set_column_same [OF Cons.prems(2) lc st(5)])
  have other: "\<And>j. j \<noteq> i \<Longrightarrow> column post1 j = column post j"
    by (rule column_set_column_other [OF Cons.prems(2) lc st(5)])
  have sub: "set c \<subseteq> set true_i" by (rule sample_ecdf_entries [OF st(4)])
  show ?case
  proof (intro conjI allI impI)
    show "wf_ndarray2 post'" using ih by simp
    show "shape0 post' = shape0 post" using ih sh1 by simp
    show "shape1 post' = shape1 post" using ih sh1 by simp
  next
    fix j assume "j \<notin> set (i # is)"
    then have "j \<notin> set is" "j \<noteq> i" by simp_all
    with ih other show "column post' j = column post j" by simp
  next
    fix j assume j: "j \<in> set (i # is)"
    show "\<exists>c t. column post' j = Inr c \<and> column truth j = Inr t \<and> set c \<subseteq> set t"
    proof (cases "j \<in> set is")
      case True
      with ih show ?thesis by blast
    next
      case False
      with j have "j = i" by simp
      with False ih same have "column post' j = Inr c" by simp
      with \<open>j = i\<close> st(3) sub show ?thesis by blast
    qed
  qed
qed

text \<open>
  The loop returns when every column it visits exists in the three arrays, the truth
  array has at least as many rows as the predicted-test array, and it has a row.
\<close>

lemma posterior_loop_returns:
  assumes "wf_ndarray2 obs" and "wf_ndarray2 pred" and "wf_ndarray2 truth"
    and "shape0 pred \<le> shape0 truth" and "0 < shape0 truth"
    and "list_all (\<lambda>i. i < shape1 obs \<and> i < shape1 pred \<and> i < shape1 truth) is"
    and "wf_ndarray2 post" and "shape0 post = shape0 obs" and "shape1 post = shape1 obs"
  shows "\<exists>post' g'. posterior_loop gen obs pred truth Ws is post g = Inr (post', g')"
  using assms(6-)
proof (induction "is" arbitrary: post g)
  case Nil
  then show ?case by simp
next
  case (Cons i "is")
  from Cons.prems(1) have i: "i < shape1 obs" "i < shape1 pred" "i < shape1 truth"
    and rest: "list_all (\<lambda>i. i < shape1 obs \<and> i < shape1 pred \<and> i < shape1 truth) is"
    by simp_all
  obtain obs_i pred_i true_i where cols: "column obs i = Inr obs_i" "column pred i = Inr pred_i"
      "column truth i = Inr true_i"
    using i by (simp add: column_def)
  have len: "length obs_i = shape0 obs" "length pred_i = shape0 pred" "length true_i = shape0 truth"
    using cols assms(1-3) by (simp_all add: column_length)
  with assms(4,5) have "true_i \<noteq> []" "length pred_i \<le> length true_i" by auto
  then have "list_all (\<lambda>u. list_all (\<lambda>j. j < length true_i) (where_window pred_i u (Ws ! i))) obs_i"
    by (simp add: list_all_iff window_in_bounds [unfolded list_all_iff])
  from sample_ecdf_returns [OF \<open>true_i \<noteq> []\<close> this, of gen g] obtain c g1
    where se: "sample_ecdf gen obs_i pred_i true_i (Ws ! i) g = Inr (c, g1)" "length c = length obs_i"
    by blast
  from i(1) Cons.prems(4) obtain post1 where sc: "set_column post i c = Inr post1"
    by (simp add: set_column_def)
  have lc: "length c = shape0 post" using se(2) len(1) Cons.prems(3) by simp
  have wf1: "wf_ndarray2 post1" by (rule set_column_wf [OF Cons.prems(2) lc sc])
  have sh1: "shape0 post1 = shape0 obs" "shape1 post1 = shape1 obs"
    using set_column_shape [OF sc] Cons.prems(3,4) by simp_all
  from Cons.IH [OF rest wf1 sh1, of g1] cols se(1) sc show ?case by simp
qed

text \<open>It stops with IndexError at the first column missing from one of the three arrays.\<close>

lemma posterior_loop_missing_column:
  assumes "wf_ndarray2 obs" and "wf_ndarray2 pred" and "wf_ndarray2 truth"
    and "shape0 pred \<le> shape0 truth" and "0 < shape0 truth"
    and "list_all (\<lambda>i. i < shape1 obs \<and> i < shape1 pred \<and> i < shape1 truth) is"
    and "wf_ndarray2 post" and "shape0 post = shape0 obs" and "shape1 post = shape1 obs"
    and "\<not> (m < shape1 obs \<and> m < shape1 pred \<and> m < shape1 truth)"
  shows "posterior_loop gen obs pred truth Ws (is @ m # js) post g = Inl IndexError"
proof -
  from posterior_loop_returns [OF assms(1-9), of gen Ws g] obtain post1 g1
    where "posterior_loop gen obs pred truth Ws is post g = Inr (post1, g1)"
    by blast
  moreover have "posterior_loop gen obs pred truth Ws (m # js) post1 g1 = Inl IndexError"
    using assms(10) by (auto simp: column_def split: sum.splits)
  ultimately show ?thesis by (simp add: posterior_loop_append)
qed

lemma compute_default_tol_Inr:
  assumes "0 < shape0 m"
  shows "compute_default_tol m =
           Inr (map (\<lambda>p. 1 / 20 * (Max (set (map (\<lambda>r. r ! p) (rows m))) -
                                  Min (set (map (\<lambda>r. r ! p) (rows m))))) [0..<shape1 m])"
  using assms
  by (simp add: compute_default_tol_def amin0_def amax0_def zip_map_map zip_same_conv_map)

lemma compute_default_tol_Inl:
  "shape0 m = 0 \<Longrightarrow> compute_default_tol m = Inl ValueError"
  by (simp add: compute_default_tol_def amin0_def)


lemma EPS_Some:
  "EmpiricalPosteriorSampling gen obs pred truth (Some ws) g =
     posterior_loop gen obs pred truth ws [0..<length ws] (zeros2 (shape0 obs) (shape1 obs)) g"
  by (simp add: EmpiricalPosteriorSampling_def)

lemma EPS_tolerances:
  assumes "0 < shape0 pred"
  shows "\<exists>ws. length ws = (case Ws of None \<Rightarrow> shape1 pred | Some ws \<Rightarrow> length ws) \<and>
           EmpiricalPosteriorSampling gen obs pred truth Ws g =
             posterior_loop gen obs pred truth ws [0..<length ws]
               (zeros2 (shape0 obs) (shape1 obs)) g"
proof (cases Ws)
  case None
  from compute_default_tol_Inr [OF assms] obtain ws
    where ws: "compute_default_tol pred = Inr ws" "length ws = shape1 pred"
    by simp
  with None show ?thesis
    by (intro exI [of _ ws]) (simp add: EmpiricalPosteriorSampling_def)
next
  case (Some ws)
  then show ?thesis
    by (intro exI [of _ ws]) (simp add: EmpiricalPosteriorSampling_def)
qed

text \<open>A loop over the first \<open>n\<close> columns, all present, from the zero array.\<close>

lemma posterior_loop_upt:
  assumes "wf_ndarray2 obs" and "wf_ndarray2 pred" and "wf_ndarray2 truth"
    and "shape0 pred \<le> shape0 truth" and "0 < shape0 truth"
    and "n \<le> shape1 obs" and "n \<le> shape1 pred" and "n \<le> shape1 truth"
  shows "\<exists>out g'. posterior_loop gen obs pred truth ws [0..<n]
                     (zeros2 (shape0 obs) (shape1 obs)) g = Inr (out, g') \<and>
           wf_ndarray2 out \<and> shape0 out = shape0 obs \<and> shape1 out = shape1 obs \<and>
           (\<forall>p. n \<le> p \<and> p < shape1 obs \<longrightarrow> column out p = Inr (zeros1 (shape0 obs))) \<and>
           (\<forall>p<n. \<exists>c t. column out p = Inr c \<and> column truth p = Inr t \<and> set c \<subseteq> set t)"
proof -
  let ?z = "zeros2 (shape0 obs) (shape1 obs)"
  have la: "list_all (\<lambda>i. i < shape1 obs \<and> i < shape1 pred \<and> i < shape1 truth) [0..<n]"
    using assms(6-8) by (simp add: list_all_iff)
  from posterior_loop_returns [OF assms(1-5) la wf_zeros2 zeros2_shape, of gen ws g]
  obtain out g' where r: "posterior_loop gen obs pred truth ws [0..<n] ?z g = Inr (out, g')"
    by blast
  note res = posterior_loop_result [OF assms(1) r wf_zeros2 zeros2_shape(1)]
  have "column out p = Inr (zeros1 (shape0 obs))" if "n \<le> p \<and> p < shape1 obs" for p
  proof -
    from that have "p \<notin> set [0..<n]" by simp
    with res have "column out p = column ?z p" by blast
    with that show ?thesis by (simp add: column_zeros2)
  qed
  moreover have "\<exists>c t. column out p = Inr c \<and> column truth p = Inr t \<and> set c \<subseteq> set t"
    if "p < n" for p
  proof -
    from that have "p \<in> set [0..<n]" by simp
    with res show ?thesis by blast
  qed
  ultimately show ?thesis using r res by (simp add: zeros2_shape)
qed

text \<open>The single-parameter run on column \<open>p\<close>, from any generator state.\<close>

lemma single_parameter_run:
  assumes "wf_ndarray2 obs"
    and "column obs p = Inr obs_i" and "column pred p = Inr pred_i" and "column truth p = Inr true_i"
    and "sample_ecdf gen obs_i pred_i true_i w gp = Inr (c, g1)"
  shows "EmpiricalPosteriorSampling gen (select_column obs p) (select_column pred p)
           (select_column truth p) (Some [w]) gp =
         Inr (\<lparr>shape0 = shape0 obs, shape1 = 1, rows = map (\<lambda>x. [x]) c\<rparr>, g1)"
proof -
  have lc: "length c = shape0 obs"
    using sample_ecdf_length [OF assms(5)] column_length [OF assms(1,2)] by simp
  have cols: "column (select_column obs p) 0 = Inr obs_i"
    "column (select_column pred p) 0 = Inr pred_i"
    "column (select_column truth p) 0 = Inr true_i"
    using assms(2-4) by (simp_all add: select_column_column0 column_eq_map [symmetric])
  have sh: "shape0 (select_column obs p) = shape0 obs" "shape1 (select_column obs p) = 1"
    by (simp_all add: select_column_def)
  show ?thesis
    by (simp add: EPS_Some sh cols assms(5) set_column_zeros_single [OF lc, unfolded One_nat_def])
qed

section \<open>Default tolerances\<close>



section \<open>The posterior-sample matrix\<close>

text \<open>
  C5. For observed predictions of shape Q x P, predicted-test and true-test arrays of
  shape N x P with N > 0, and tolerances that are omitted or of length P,
  \<^verbatim>\<open>EmpiricalPosteriorSampling\<close> returns, and the array it returns has shape Q x P.
  Neither \<open>0 < P\<close> nor \<open>0 < Q\<close> is needed.
\<close>

theorem posterior_shape:
  assumes "wf_ndarray2 obs" and "wf_ndarray2 pred" and "wf_ndarray2 truth"
    and "shape1 pred = shape1 obs" and "shape1 truth = shape1 obs"
    and "shape0 truth = shape0 pred" and "0 < shape0 pred"
    and "case Ws of None \<Rightarrow> True | Some ws \<Rightarrow> length ws = shape1 obs"
  shows "\<exists>out g'. EmpiricalPosteriorSampling gen obs pred truth Ws g = Inr (out, g') \<and>
           wf_ndarray2 out \<and> shape0 out = shape0 obs \<and> shape1 out = shape1 obs"
proof -
  from EPS_tolerances [OF assms(7), of Ws gen obs truth g] obtain ws
    where ws: "length ws = (case Ws of None \<Rightarrow> shape1 pred | Some ws \<Rightarrow> length ws)"
      "EmpiricalPosteriorSampling gen obs pred truth Ws g =
         posterior_loop gen obs pred truth ws [0..<length ws]
           (zeros2 (shape0 obs) (shape1 obs)) g"
    by blast
  from ws(1) assms(4,8) have n: "length ws = shape1 obs" by (cases Ws) simp_all
  have "shape0 pred \<le> shape0 truth" "0 < shape0 truth" "length ws \<le> shape1 obs"
    "length ws \<le> shape1 pred" "length ws \<le> shape1 truth"
    using assms(4-7) n by simp_all
  from posterior_loop_upt [OF assms(1-3) this, of gen ws g] ws(2) show ?thesis by auto
qed

theorem posterior_shape_witness:
  "wf_ndarray2 ex_obs \<and> wf_ndarray2 ex_pred \<and> wf_ndarray2 ex_truth \<and>
   (\<exists>out g'. EmpiricalPosteriorSampling counter_gen ex_obs ex_pred ex_truth None (0::nat) = Inr (out, g') \<and>
      wf_ndarray2 out \<and> shape0 out = 2 \<and> shape1 out = 2) \<and>
   (\<exists>out g'. EmpiricalPosteriorSampling counter_gen ex_obs ex_pred ex_truth (Some [1 / 2, 0]) (0::nat) =
        Inr (out, g') \<and> wf_ndarray2 out \<and> shape0 out = 2 \<and> shape1 out = 2)"
proof -
  have h: "shape1 ex_pred = shape1 ex_obs" "shape1 ex_truth = shape1 ex_obs"
    "shape0 ex_truth = shape0 ex_pred" "0 < shape0 ex_pred"
    by (simp_all add: ex_shapes)
  have a: "case None :: real list option of None \<Rightarrow> True | Some ws \<Rightarrow> length ws = shape1 ex_obs"
    by simp
  have b: "case Some [1 / 2, 0 :: real] of None \<Rightarrow> True | Some ws \<Rightarrow> length ws = shape1 ex_obs"
    by (simp add: ex_shapes)
  from posterior_shape [OF ex_wf h a, of counter_gen "0::nat"]
    posterior_shape [OF ex_wf h b, of counter_gen "0::nat"] ex_wf
  show ?thesis by (simp add: ex_shapes)
qed

text \<open>
  C10. With consistent array shapes (N > 0) and a tolerance vector of length k smaller than
  the parameter count P, the call raises no error: it returns a Q x P array in which
  every column from k on is all zero, and every entry of a column below k is a value of
  the same column of the true-test array.
\<close>

theorem short_tolerances_leave_zero_columns:
  assumes "wf_ndarray2 obs" and "wf_ndarray2 pred" and "wf_ndarray2 truth"
    and "shape1 pred = shape1 obs" and "shape1 truth = shape1 obs"
    and "shape0 truth = shape0 pred" and "0 < shape0 pred"
    and "length ws < shape1 obs"
  shows "\<exists>out g'. EmpiricalPosteriorSampling gen obs pred truth (Some ws) g = Inr (out, g') \<and>
           wf_ndarray2 out \<and> shape0 out = shape0 obs \<and> shape1 out = shape1 obs \<and>
           (\<forall>p. length ws \<le> p \<and> p < shape1 obs \<longrightarrow> column out p = Inr (zeros1 (shape0 obs))) \<and>
           (\<forall>p<length ws. \<exists>c t. column out p = Inr c \<and> column truth p = Inr t \<and> set c \<subseteq> set t)"
proof -
  have "shape0 pred \<le> shape0 truth" "0 < shape0 truth" "length ws \<le> shape1 obs"
    "length ws \<le> shape1 pred" "length ws \<le> shape1 truth"
    using assms(4-8) by simp_all
  from posterior_loop_upt [OF assms(1-3) this, of gen ws g] show ?thesis
    by (simp add: EPS_Some)
qed

theorem short_tolerances_leave_zero_columns_witness:
  "wf_ndarray2 ex_obs \<and> wf_ndarray2 ex_pred \<and> wf_ndarray2 ex_truth \<and>
   length [1 / 2 :: real] < shape1 ex_obs \<and>
   EmpiricalPosteriorSampling counter_gen ex_obs ex_pred ex_truth (Some [1 / 2]) (0::nat) =
     Inr (\<lparr>shape0 = 2, shape1 = 2, rows = [[30, 0], [20, 0]]\<rparr>, 2) \<and>
   (\<exists>out g'. EmpiricalPosteriorSampling counter_gen ex_obs ex_pred ex_truth (Some [1 / 2]) (0::nat) =
        Inr (out, g') \<and> shape0 out = 2 \<and> shape1 out = 2 \<and> column out 1 = Inr [0, 0])"
proof -
  have h: "shape1 ex_pred = shape1 ex_obs" "shape1 ex_truth = shape1 ex_obs"
    "shape0 ex_truth = shape0 ex_pred" "0 < shape0 ex_pred" "length [1 / 2 :: real] < shape1 ex_obs"
    by (simp_all add: ex_shapes)
  have e: "EmpiricalPosteriorSampling counter_gen ex_obs ex_pred ex_truth (Some [1 / 2]) (0::nat) =
     Inr (\<lparr>shape0 = 2, shape1 = 2, rows = [[30, 0], [20, 0]]\<rparr>, 2)"
    by code_simp
  from short_tolerances_leave_zero_columns [OF ex_wf h, of counter_gen "0::nat"]
  obtain out g' where o:
    "EmpiricalPosteriorSampling counter_gen ex_obs ex_pred ex_truth (Some [1 / 2]) (0::nat) = Inr (out, g')"
    "shape0 out = shape0 ex_obs" "shape1 out = shape1 ex_obs"
    "\<forall>p. length [1 / 2 :: real] \<le> p \<and> p < shape1 ex_obs \<longrightarrow> column out p = Inr (zeros1 (shape0 ex_obs))"
    by blast
  from o(4) have "column out 1 = Inr [0, 0]"
    by (simp add: ex_shapes zeros1_def numeral_2_eq_2)
  with o(1-3) e h(5) ex_wf show ?thesis by (simp add: ex_shapes)
qed

section \<open>Mismatched shapes\<close>

text \<open>
  C4, as stated, fails: the source checks no shape. With a predicted-test array of one
  row and a true-test array of two rows the call returns a sample, and with observed
  predictions of two columns against test arrays of one column it returns an array
  whose second column is zero.
\<close>

theorem shape_mismatch_counterexample:
  "shape0 \<lparr>shape0 = 1, shape1 = 1, rows = [[0]]\<rparr> \<noteq>
     shape0 \<lparr>shape0 = 2, shape1 = 1, rows = [[10], [20]]\<rparr> \<and>
   EmpiricalPosteriorSampling counter_gen
     \<lparr>shape0 = 1, shape1 = 1, rows = [[0]]\<rparr>
     \<lparr>shape0 = 1, shape1 = 1, rows = [[0]]\<rparr>
     \<lparr>shape0 = 2, shape1 = 1, rows = [[10], [20]]\<rparr> None (0::nat) =
     Inr (\<lparr>shape0 = 1, shape1 = 1, rows = [[10]]\<rparr>, 1) \<and>
   shape1 \<lparr>shape0 = 1, shape1 = 2, rows = [[0, 0]]\<rparr> \<noteq>
     shape1 \<lparr>shape0 = 1, shape1 = 1, rows = [[0]]\<rparr> \<and>
   EmpiricalPosteriorSampling counter_gen
     \<lparr>shape0 = 1, shape1 = 2, rows = [[0, 0]]\<rparr>
     \<lparr>shape0 = 1, shape1 = 1, rows = [[0]]\<rparr>
     \<lparr>shape0 = 1, shape1 = 1, rows = [[10]]\<rparr> None (0::nat) =
     Inr (\<lparr>shape0 = 1, shape1 = 2, rows = [[10, 0]]\<rparr>, 1)"
  by code_simp

text \<open>
  C4, amended. No shape is validated and no error is raised before the sampling starts.
  When the predicted-test array has a row and the true-test array has at least as many
  rows, the outcome depends only on the number \<open>n\<close> of tolerances (given, or one per
  predicted-test column): the call returns an array of the shape of the observed
  predictions when none of the three arrays has fewer than \<open>n\<close> columns, whatever else
  differs between their shapes, and it fails with IndexError otherwise.
\<close>

theorem no_shape_validation:
  assumes "wf_ndarray2 obs" and "wf_ndarray2 pred" and "wf_ndarray2 truth"
    and "0 < shape0 pred" and "shape0 pred \<le> shape0 truth"
    and "n = (case Ws of None \<Rightarrow> shape1 pred | Some ws \<Rightarrow> length ws)"
  shows "(n \<le> shape1 obs \<and> n \<le> shape1 pred \<and> n \<le> shape1 truth \<longrightarrow>
            (\<exists>out g'. EmpiricalPosteriorSampling gen obs pred truth Ws g = Inr (out, g') \<and>
               shape0 out = shape0 obs \<and> shape1 out = shape1 obs)) \<and>
         (\<not> (n \<le> shape1 obs \<and> n \<le> shape1 pred \<and> n \<le> shape1 truth) \<longrightarrow>
            EmpiricalPosteriorSampling gen obs pred truth Ws g = Inl IndexError)"
proof -
  from EPS_tolerances [OF assms(4), of Ws gen obs truth g] assms(6) obtain ws
    where ws: "length ws = n"
      "EmpiricalPosteriorSampling gen obs pred truth Ws g =
         posterior_loop gen obs pred truth ws [0..<length ws]
           (zeros2 (shape0 obs) (shape1 obs)) g"
    by auto
  have t0: "0 < shape0 truth" using assms(4,5) by simp
  show ?thesis
  proof (intro conjI impI)
    assume "n \<le> shape1 obs \<and> n \<le> shape1 pred \<and> n \<le> shape1 truth"
    then have "length ws \<le> shape1 obs" "length ws \<le> shape1 pred" "length ws \<le> shape1 truth"
      using ws(1) by simp_all
    from posterior_loop_upt [OF assms(1-3) assms(5) t0 this, of gen ws g] ws(2)
    show "\<exists>out g'. EmpiricalPosteriorSampling gen obs pred truth Ws g = Inr (out, g') \<and>
               shape0 out = shape0 obs \<and> shape1 out = shape1 obs"
      by auto
  next
    assume long: "\<not> (n \<le> shape1 obs \<and> n \<le> shape1 pred \<and> n \<le> shape1 truth)"
    define m where "m = min (shape1 obs) (min (shape1 pred) (shape1 truth))"
    from long have mn: "m < n" by (auto simp: m_def)
    have split: "[0..<length ws] = [0..<m] @ m # [Suc m..<length ws]"
      using mn ws(1) by (simp add: upt_split)
    have la: "list_all (\<lambda>i. i < shape1 obs \<and> i < shape1 pred \<and> i < shape1 truth) [0..<m]"
      by (simp add: list_all_iff m_def)
    have miss: "\<not> (m < shape1 obs \<and> m < shape1 pred \<and> m < shape1 truth)"
      by (auto simp: m_def)
    from posterior_loop_missing_column
      [OF assms(1-3) assms(5) t0 la wf_zeros2 zeros2_shape miss, of gen ws "[Suc m..<length ws]" g]
    show "EmpiricalPosteriorSampling gen obs pred truth Ws g = Inl IndexError"
      by (simp add: ws(2) split)
  qed
qed

theorem no_shape_validation_witness:
  "wf_ndarray2 ex_obs \<and> wf_ndarray2 ex_pred \<and> wf_ndarray2 ex_truth \<and>
   wf_ndarray2 (select_column ex_obs 0) \<and> wf_ndarray2 (select_column ex_pred 0) \<and>
   0 < shape0 ex_pred \<and> shape0 ex_pred \<le> shape0 ex_truth \<and>
   0 < shape0 (select_column ex_pred 0) \<and> shape0 (select_column ex_pred 0) \<le> shape0 ex_truth \<and>
   (\<exists>out g'. EmpiricalPosteriorSampling counter_gen ex_obs (select_column ex_pred 0) ex_truth None (0::nat) =
      Inr (out, g') \<and> shape0 out = 2 \<and> shape1 out = 2) \<and>
   EmpiricalPosteriorSampling counter_gen (select_column ex_obs 0) ex_pred ex_truth None (0::nat) =
     Inl IndexError"
proof -
  have wf: "wf_ndarray2 (select_column ex_obs 0)" "wf_ndarray2 (select_column ex_pred 0)"
    by (simp_all add: wf_ndarray2_def select_column_def ex_obs_def ex_pred_def)
  have sh: "shape0 (select_column ex_pred 0) = 5" "shape1 (select_column ex_pred 0) = 1"
    "shape0 (select_column ex_obs 0) = 2" "shape1 (select_column ex_obs 0) = 1"
    by (simp_all add: select_column_def ex_shapes)
  have r: "0 < shape0 ex_pred" "shape0 ex_pred \<le> shape0 ex_truth"
    "0 < shape0 (select_column ex_pred 0)" "shape0 (select_column ex_pred 0) \<le> shape0 ex_truth"
    by (simp_all add: sh ex_shapes)
  have n1: "(1::nat) = (case None :: real list option of None \<Rightarrow> shape1 (select_column ex_pred 0)
              | Some ws \<Rightarrow> length ws)"
    and n2: "(2::nat) = (case None :: real list option of None \<Rightarrow> shape1 ex_pred
              | Some ws \<Rightarrow> length ws)"
    by (simp_all add: sh ex_shapes)
  from no_shape_validation [OF ex_wf(1) wf(2) ex_wf(3) r(3,4) n1, of counter_gen "0::nat"]
  have a: "\<exists>out g'. EmpiricalPosteriorSampling counter_gen ex_obs (select_column ex_pred 0) ex_truth
             None (0::nat) = Inr (out, g') \<and> shape0 out = 2 \<and> shape1 out = 2"
    by (simp add: sh ex_shapes)
  from no_shape_validation [OF wf(1) ex_wf(2,3) r(1,2) n2, of counter_gen "0::nat"]
  have b: "EmpiricalPosteriorSampling counter_gen (select_column ex_obs 0) ex_pred ex_truth
             None (0::nat) = Inl IndexError"
    by (simp add: sh ex_shapes)
  from a b wf r ex_wf show ?thesis by simp
qed

section \<open>Determinism and the shared generator\<close>

text \<open>The generator is used only through the indices it returns.\<close>

lemma same_draws_refl: "same_draws (=) gen gen"
  by (simp add: same_draws_def)

lemma random_choice_rel:
  assumes "same_draws R gen1 gen2" and "R s1 s2"
  shows "rel_sum (=) (rel_prod (=) R) (random_choice gen1 n s1) (random_choice gen2 n s2)"
  using assms by (simp add: random_choice_def same_draws_def)

lemma sample_ecdf_step_rel:
  assumes "same_draws R gen1 gen2" and "R s1 s2"
  shows "rel_sum (=) (rel_prod (=) R)
           (sample_ecdf_step gen1 v pred truth W s1) (sample_ecdf_step gen2 v pred truth W s2)"
proof -
  have "rel_sum (=) (rel_prod (=) R)
          (case random_choice gen1 n s1 of Inl e \<Rightarrow> Inl e | Inr (k, g') \<Rightarrow> Inr (xs ! k, g'))
          (case random_choice gen2 n s2 of Inl e \<Rightarrow> Inl e | Inr (k, g') \<Rightarrow> Inr (xs ! k, g'))"
    for n and xs :: "real list"
    using random_choice_rel [OF assms, of n]
    by (auto split: sum.splits elim!: rel_sum.cases)
  then show ?thesis
    by (simp add: sample_ecdf_step_def split: sum.splits)
qed

lemma sample_ecdf_loop_rel:
  assumes "same_draws R gen1 gen2" and "R s1 s2"
  shows "rel_sum (=) (rel_prod (=) R)
           (sample_ecdf_loop gen1 obs pred truth W is post s1)
           (sample_ecdf_loop gen2 obs pred truth W is post s2)"
  using assms(2)
proof (induction "is" arbitrary: post s1 s2)
  case Nil
  then show ?case by simp
next
  case (Cons i "is")
  from sample_ecdf_step_rel [OF assms(1) Cons.prems, of "obs ! i" pred truth W]
  show ?case
    by (auto split: sum.splits elim!: rel_sum.cases intro: Cons.IH)
qed

lemma sample_ecdf_rel:
  assumes "same_draws R gen1 gen2" and "R s1 s2"
  shows "rel_sum (=) (rel_prod (=) R)
           (sample_ecdf gen1 obs pred truth W s1) (sample_ecdf gen2 obs pred truth W s2)"
  unfolding sample_ecdf_def by (rule sample_ecdf_loop_rel [OF assms])

lemma rel_sum_case:
  assumes "rel_sum (=) (rel_prod (=) R) x y"
    and "\<And>c s1 s2. R s1 s2 \<Longrightarrow> rel_sum (=) Q (f c s1) (h c s2)"
  shows "rel_sum (=) Q (case x of Inl e \<Rightarrow> Inl e | Inr (c, s) \<Rightarrow> f c s)
           (case y of Inl e \<Rightarrow> Inl e | Inr (c, s) \<Rightarrow> h c s)"
  using assms by (auto elim!: rel_sum.cases)

lemma posterior_loop_rel:
  assumes "same_draws R gen1 gen2" and "R s1 s2"
  shows "rel_sum (=) (rel_prod (=) R)
           (posterior_loop gen1 obs pred truth Ws is post s1)
           (posterior_loop gen2 obs pred truth Ws is post s2)"
  using assms(2)
proof (induction "is" arbitrary: post s1 s2)
  case Nil
  then show ?case by simp
next
  case (Cons i "is")
  show ?case
  proof (cases "column obs i")
    case (Inl e)
    then show ?thesis by simp
  next
    case a: (Inr a)
    show ?thesis
    proof (cases "column pred i")
      case (Inl e)
      with a show ?thesis by simp
    next
      case b: (Inr b)
      show ?thesis
      proof (cases "column truth i")
        case (Inl e)
        with a b show ?thesis by simp
      next
        case c: (Inr c)
        have "rel_sum (=) (rel_prod (=) R)
                (case sample_ecdf gen1 a b c (Ws ! i) s1 of
                   Inl e \<Rightarrow> Inl e
                 | Inr (samples, g') \<Rightarrow>
                     (case set_column post i samples of
                        Inl e \<Rightarrow> Inl e
                      | Inr post' \<Rightarrow> posterior_loop gen1 obs pred truth Ws is post' g'))
                (case sample_ecdf gen2 a b c (Ws ! i) s2 of
                   Inl e \<Rightarrow> Inl e
                 | Inr (samples, g') \<Rightarrow>
                     (case set_column post i samples of
                        Inl e \<Rightarrow> Inl e
                      | Inr post' \<Rightarrow> posterior_loop gen2 obs pred truth Ws is post' g'))"
          by (rule rel_sum_case [OF sample_ecdf_rel [OF assms(1) Cons.prems]])
            (auto split: sum.splits intro: Cons.IH)
        with a b c show ?thesis by simp
      qed
    qed
  qed
qed

text \<open>
  C8. Two invocations with identical inputs and identically seeded random sources give
  the same result: the same posterior-sample array, entry for entry, or the same
  exception. The random source is explicit, and two sources are seeded identically when
  they make the same draws from their states, related by \<open>R\<close>; this holds for one
  generator started twice in the same state, with equality for \<open>R\<close>. The final states
  are related again.
\<close>

theorem posterior_sampling_deterministic:
  assumes "same_draws R gen1 gen2" and "R g1 g2"
  shows "rel_sum (=) (rel_prod (=) R)
           (EmpiricalPosteriorSampling gen1 obs pred truth Ws g1)
           (EmpiricalPosteriorSampling gen2 obs pred truth Ws g2)"
  unfolding EmpiricalPosteriorSampling_def
  by (auto split: sum.splits option.splits intro: posterior_loop_rel [OF assms])

theorem posterior_sampling_deterministic_witness:
  "same_draws (=) counter_gen counter_gen \<and> same_draws (=) counter_gen offset_gen \<and>
   rel_sum (=) (rel_prod (=) (=))
     (EmpiricalPosteriorSampling counter_gen ex_obs ex_pred ex_truth None (0::nat))
     (EmpiricalPosteriorSampling counter_gen ex_obs ex_pred ex_truth None (0::nat)) \<and>
   EmpiricalPosteriorSampling offset_gen ex_obs ex_pred ex_truth None (0::nat) =
     EmpiricalPosteriorSampling counter_gen ex_obs ex_pred ex_truth None (0::nat) \<and>
   EmpiricalPosteriorSampling counter_gen ex_obs ex_pred ex_truth None (0::nat) =
     Inr (\<lparr>shape0 = 2, shape1 = 2, rows = [[30, 3], [20, 4]]\<rparr>, 4)"
proof -
  have r: "same_draws (=) counter_gen counter_gen" by (rule same_draws_refl)
  have s: "same_draws (=) counter_gen offset_gen"
    by (simp add: same_draws_def counter_gen_def offset_gen_def)
  have e: "EmpiricalPosteriorSampling counter_gen ex_obs ex_pred ex_truth None (0::nat) =
     Inr (\<lparr>shape0 = 2, shape1 = 2, rows = [[30, 3], [20, 4]]\<rparr>, 4)"
    by code_simp
  note a = posterior_sampling_deterministic [OF r refl, of ex_obs ex_pred ex_truth None "0::nat"]
  from posterior_sampling_deterministic [OF s refl, of ex_obs ex_pred ex_truth None "0::nat"] e
  have "EmpiricalPosteriorSampling offset_gen ex_obs ex_pred ex_truth None (0::nat) =
     EmpiricalPosteriorSampling counter_gen ex_obs ex_pred ex_truth None (0::nat)"
    by (auto elim!: rel_sum.cases)
  with r s a e show ?thesis by simp
qed

text \<open>
  C9, as stated, fails: the columns share one generator, which the loop advances from
  column to column. With two parameters whose candidate sets hold both test-set
  realizations, the run from state 0 returns 10 and 40; with the two columns exchanged
  it returns 30 and 20, not 40 and 10; and the single-parameter run on column 1 from
  state 0 returns 30, not 40. The tolerance vector is the same after the exchange.
\<close>

theorem column_permutation_counterexample:
  "EmpiricalPosteriorSampling counter_gen
     \<lparr>shape0 = 1, shape1 = 2, rows = [[0, 0]]\<rparr>
     \<lparr>shape0 = 2, shape1 = 2, rows = [[0, 0], [0, 0]]\<rparr>
     \<lparr>shape0 = 2, shape1 = 2, rows = [[10, 30], [20, 40]]\<rparr> (Some [0, 0]) (0::nat) =
     Inr (\<lparr>shape0 = 1, shape1 = 2, rows = [[10, 40]]\<rparr>, 2) \<and>
   EmpiricalPosteriorSampling counter_gen
     (permute_columns [1, 0] \<lparr>shape0 = 1, shape1 = 2, rows = [[0, 0]]\<rparr>)
     (permute_columns [1, 0] \<lparr>shape0 = 2, shape1 = 2, rows = [[0, 0], [0, 0]]\<rparr>)
     (permute_columns [1, 0] \<lparr>shape0 = 2, shape1 = 2, rows = [[10, 30], [20, 40]]\<rparr>)
     (Some [0, 0]) (0::nat) =
     Inr (\<lparr>shape0 = 1, shape1 = 2, rows = [[30, 20]]\<rparr>, 2) \<and>
   permute_columns [1, 0] \<lparr>shape0 = 1, shape1 = 2, rows = [[10, 40]]\<rparr> =
     \<lparr>shape0 = 1, shape1 = 2, rows = [[40, 10]]\<rparr> \<and>
   EmpiricalPosteriorSampling counter_gen
     (select_column \<lparr>shape0 = 1, shape1 = 2, rows = [[0, 0]]\<rparr> 1)
     (select_column \<lparr>shape0 = 2, shape1 = 2, rows = [[0, 0], [0, 0]]\<rparr> 1)
     (select_column \<lparr>shape0 = 2, shape1 = 2, rows = [[10, 30], [20, 40]]\<rparr> 1)
     (Some [0]) (0::nat) =
     Inr (\<lparr>shape0 = 1, shape1 = 1, rows = [[30]]\<rparr>, 1) \<and>
   select_column \<lparr>shape0 = 1, shape1 = 2, rows = [[10, 40]]\<rparr> 1 =
     \<lparr>shape0 = 1, shape1 = 1, rows = [[40]]\<rparr>"
  by code_simp

text \<open>
  C9, amended. Column \<open>p\<close> of the result depends only on column \<open>p\<close> of the three
  arrays, on tolerance \<open>p\<close> and on the generator state \<open>gp\<close> in which the loop reaches
  column \<open>p\<close>, the state the run over the first \<open>p\<close> tolerances ends in: the
  single-parameter run on column \<open>p\<close> started in \<open>gp\<close> returns column \<open>p\<close> of the
  multi-parameter result. For \<open>p = 0\<close> that state is the initial one.
\<close>

theorem posterior_column_decomposition:
  assumes "wf_ndarray2 obs"
    and "EmpiricalPosteriorSampling gen obs pred truth (Some Ws) g = Inr (out, gfin)"
    and "p < length Ws"
  shows "\<exists>outp gp gp'.
           EmpiricalPosteriorSampling gen obs pred truth (Some (take p Ws)) g = Inr (outp, gp) \<and>
           (p = 0 \<longrightarrow> gp = g) \<and>
           EmpiricalPosteriorSampling gen (select_column obs p) (select_column pred p)
             (select_column truth p) (Some [Ws ! p]) gp = Inr (select_column out p, gp')"
proof -
  let ?z = "zeros2 (shape0 obs) (shape1 obs)"
  let ?rest = "[Suc p..<length Ws]"
  from assms(2) have run: "posterior_loop gen obs pred truth Ws [0..<length Ws] ?z g = Inr (out, gfin)"
    by (simp add: EPS_Some)
  have split: "[0..<length Ws] = [0..<p] @ p # ?rest" using assms(3) by (rule upt_split)
  from run obtain postp gp
    where pre: "posterior_loop gen obs pred truth Ws [0..<p] ?z g = Inr (postp, gp)"
      and suf: "posterior_loop gen obs pred truth Ws (p # ?rest) postp gp = Inr (out, gfin)"
    unfolding split posterior_loop_append by (auto split: sum.splits)
  from suf obtain obs_i pred_i true_i c g1 post1 where
    st: "column obs p = Inr obs_i" "column pred p = Inr pred_i" "column truth p = Inr true_i"
      "sample_ecdf gen obs_i pred_i true_i (Ws ! p) gp = Inr (c, g1)"
      "set_column postp p c = Inr post1"
      "posterior_loop gen obs pred truth Ws ?rest post1 g1 = Inr (out, gfin)"
    by (rule posterior_loop_Cons_Inr)
  note resp = posterior_loop_result [OF assms(1) pre wf_zeros2 zeros2_shape(1)]
  have lc: "length c = shape0 postp"
    using sample_ecdf_length [OF st(4)] column_length [OF assms(1) st(1)] resp
    by (simp add: zeros2_shape)
  have wf1: "wf_ndarray2 post1" using resp lc st(5) by (blast intro: set_column_wf)
  have sh1: "shape0 post1 = shape0 obs"
    using set_column_shape [OF st(5)] resp by (simp add: zeros2_shape)
  have same: "column post1 p = Inr c" using resp lc st(5) by (blast intro: column_set_column_same)
  note resr = posterior_loop_result [OF assms(1) st(6) wf1 sh1]
  have "p \<notin> set ?rest" by simp
  with resr same have outp: "column out p = Inr c" by simp
  have sho: "shape0 out = shape0 obs" using resr sh1 by simp
  have sel: "select_column out p = \<lparr>shape0 = shape0 obs, shape1 = 1, rows = map (\<lambda>x. [x]) c\<rparr>"
    using select_column_eq [OF outp] sho by simp
  have "list_all (\<lambda>i. take p Ws ! i = Ws ! i) [0..<p]" by (simp add: list_all_iff)
  from posterior_loop_cong [OF this, of gen obs pred truth ?z g] pre assms(3)
  have prefix: "EmpiricalPosteriorSampling gen obs pred truth (Some (take p Ws)) g = Inr (postp, gp)"
    by (simp add: EPS_Some min_def)
  have zero: "p = 0 \<longrightarrow> gp = g" using pre by auto
  from single_parameter_run [OF assms(1) st(1-4)] sel
  have "EmpiricalPosteriorSampling gen (select_column obs p) (select_column pred p)
             (select_column truth p) (Some [Ws ! p]) gp = Inr (select_column out p, g1)"
    by simp
  with prefix zero show ?thesis by blast
qed

theorem posterior_column_decomposition_witness:
  "wf_ndarray2 ex_obs \<and> (1::nat) < length [1 / 5, 0 :: real] \<and>
   EmpiricalPosteriorSampling counter_gen ex_obs ex_pred ex_truth (Some [1 / 5, 0]) (0::nat) =
     Inr (\<lparr>shape0 = 2, shape1 = 2, rows = [[30, 3], [20, 4]]\<rparr>, 4) \<and>
   (\<exists>outp gp gp'.
      EmpiricalPosteriorSampling counter_gen ex_obs ex_pred ex_truth (Some (take 1 [1 / 5, 0])) (0::nat) =
        Inr (outp, gp) \<and>
      EmpiricalPosteriorSampling counter_gen (select_column ex_obs 1) (select_column ex_pred 1)
        (select_column ex_truth 1) (Some [[1 / 5, 0] ! 1]) gp =
        Inr (select_column \<lparr>shape0 = 2, shape1 = 2, rows = [[30, 3], [20, 4]]\<rparr> 1, gp'))"
proof -
  have e: "EmpiricalPosteriorSampling counter_gen ex_obs ex_pred ex_truth (Some [1 / 5, 0]) (0::nat) =
     Inr (\<lparr>shape0 = 2, shape1 = 2, rows = [[30, 3], [20, 4]]\<rparr>, 4)"
    by code_simp
  have l: "(1::nat) < length [1 / 5, 0 :: real]" by simp
  from posterior_column_decomposition [OF ex_wf(1) e l] e l ex_wf(1) show ?thesis by blast
qed

section \<open>Further properties\<close>

text \<open>
  X1. For the predicted-test column 1, 2, 3, 4, 5, the true-test column 10, 20, 30, 40, 50,
  the observed prediction 100 and the tolerance 0.5 there is no candidate, and the step
  returns the truth value at the index the generator draws over the five indices of the
  truth column.
\<close>

theorem example_fallback:
  "where_window [1, 2, 3, 4, 5] 100 (1 / 2) = [] \<and>
   sample_ecdf_step gen 100 [1, 2, 3, 4, 5] [10, 20, 30, 40, 50] (1 / 2) g =
     Inr ([10, 20, 30, 40, 50] ! (fst (gen 5 g) mod 5), snd (gen 5 g))"
proof -
  have w: "where_window [1, 2, 3, 4, 5] 100 (1 / 2) = []" by code_simp
  have l: "length [10, 20, 30, 40, 50 :: real] = 5" by simp
  have "sample_ecdf_step gen 100 [1, 2, 3, 4, 5] [10, 20, 30, 40, 50] (1 / 2) g =
     Inr ([10, 20, 30, 40, 50] ! (fst (gen 5 g) mod 5), snd (gen 5 g))"
    unfolding sample_ecdf_step_def w take_inds_def l random_choice_def by simp
  with w show ?thesis by simp
qed

text \<open>
  X2. With the default tolerances and a predicted-test array that has no row, the call
  fails with the ValueError of \<^verbatim>\<open>np.min\<close> on an empty axis.
\<close>

theorem default_tolerances_need_a_row:
  assumes "shape0 pred = 0"
  shows "EmpiricalPosteriorSampling gen obs pred truth None g = Inl ValueError"
  using assms by (simp add: EmpiricalPosteriorSampling_def compute_default_tol_Inl)

theorem default_tolerances_need_a_row_witness:
  "shape0 (zeros2 0 2) = 0 \<and>
   EmpiricalPosteriorSampling counter_gen ex_obs (zeros2 0 2) (zeros2 0 2) None (0::nat) =
     Inl ValueError"
proof -
  have z: "shape0 (zeros2 0 2) = 0" by (simp add: zeros2_def)
  from default_tolerances_need_a_row [OF z, of counter_gen ex_obs "zeros2 0 2" "0::nat"] z
  show ?thesis by simp
qed

end
